theory Spec2Isabelle
  imports Main "HOL-Library.Code_Target_Nat"
begin

section \<open>Cloudflare IP range source for Caddy\<close>

text \<open>
  The module \<open>caddyfile.go\<close> keeps a list of address prefixes fetched from two plain-text
  lists, refreshes it on a timer, and reads its two settings from a Caddyfile block.
  The functions of the module are embedded below with the module's own names. What the
  module calls from its dependencies (\<open>net/netip\<close>, \<open>caddyhttp.CIDRExpressionToPrefix\<close>,
  \<open>bufio.Scanner\<close>, \<open>caddyfile.Dispenser\<close>, \<open>time.NewTicker\<close>) is embedded from the
  dependency's behaviour, each in a subsection of its own; what cannot be embedded (the
  network, \<open>caddy.ParseDuration\<close> with its floating point) is an argument.
\<close>

subsection \<open>Errors\<close>

text \<open>
  Go errors are values. The message text is dropped; what is kept is the kind of the
  error and the text it is about.
\<close>

datatype error =
    TransportError nat          \<comment> \<open>\<open>http.DefaultClient.Do\<close> failed; the number names the failure\<close>
  | CIDRError string            \<comment> \<open>"parsing CIDR expression: '...'": \<open>netip.ParsePrefix\<close> failed\<close>
  | IPError string              \<comment> \<open>"invalid IP address: '...'": \<open>netip.ParseAddr\<close> failed\<close>
  | ArgErr string               \<comment> \<open>\<open>Dispenser.ArgErr\<close> at the token with this text\<close>
  | DurationError string        \<comment> \<open>\<open>caddy.ParseDuration\<close> failed on this text\<close>

subsection \<open>Addresses and prefixes (\<open>net/netip\<close>)\<close>

text \<open>
  An address is four bytes, or sixteen bytes with a zone (the empty zone is no zone).
  Bytes and 16-bit groups are naturals; every store below is range-checked first, as
  in the library.
\<close>

datatype Addr = Addr4 "nat list" | Addr6 "nat list" string

record Prefix =
  ip :: Addr
  bitsPlusOne :: nat

definition is_digit :: "char \<Rightarrow> bool" where
  "is_digit c = (48 \<le> (of_char c :: nat) \<and> (of_char c :: nat) \<le> 57)"

definition digit_val :: "char \<Rightarrow> nat" where
  "digit_val c = (of_char c :: nat) - 48"

definition hex_val :: "char \<Rightarrow> nat option" where
  "hex_val c =
     (let n = (of_char c :: nat) in
      if 48 \<le> n \<and> n \<le> 57 then Some (n - 48)
      else if 97 \<le> n \<and> n \<le> 102 then Some (n - 97 + 10)
      else if 65 \<le> n \<and> n \<le> 70 then Some (n - 65 + 10)
      else None)"

text \<open>
  \<open>parseIPv4Fields\<close>: the loop over the bytes of a dotted quad. The arguments are the
  previous byte (\<open>None\<close> at index 0), the bytes still to read, \<open>val\<close>, \<open>pos\<close>,
  \<open>digLen\<close> and the four fields (here \<open>flds\<close>).
\<close>

fun parseIPv4Fields_loop ::
  "char option \<Rightarrow> string \<Rightarrow> nat \<Rightarrow> nat \<Rightarrow> nat \<Rightarrow> nat list \<Rightarrow> nat list option" where
  "parseIPv4Fields_loop prev [] val pos digLen flds =
     (if pos < 3 then None else Some (flds[3 := val]))"
| "parseIPv4Fields_loop prev (c # cs) val pos digLen flds =
     (if is_digit c then
        (if digLen = 1 \<and> val = 0 then None
         else (let val' = val * 10 + digit_val c in
               if val' > 255 then None
               else parseIPv4Fields_loop (Some c) cs val' pos (digLen + 1) flds))
      else if c = CHR ''.'' then
        (if prev = None \<or> cs = [] \<or> prev = Some (CHR ''.'') then None
         else if pos = 3 then None
         else parseIPv4Fields_loop (Some c) cs 0 (pos + 1) 0 (flds[pos := val]))
      else None)"

definition parseIPv4Fields :: "string \<Rightarrow> nat list option" where
  "parseIPv4Fields s = parseIPv4Fields_loop None s 0 0 0 [0, 0, 0, 0]"

definition parseIPv4 :: "string \<Rightarrow> Addr option" where
  "parseIPv4 s = map_option Addr4 (parseIPv4Fields s)"

text \<open>
  The hex digits of one group of an IPv6 address: \<open>off\<close> digits read, value \<open>acc\<close>;
  a fifth digit or a value above \<open>0xffff\<close> is an error.
\<close>

fun scan_hex :: "string \<Rightarrow> nat \<Rightarrow> nat \<Rightarrow> (nat \<times> nat) option" where
  "scan_hex [] off acc = Some (off, acc)"
| "scan_hex (c # cs) off acc =
     (case hex_val c of
        None \<Rightarrow> Some (off, acc)
      | Some v \<Rightarrow>
          (let acc' = acc * 16 + v in
           if off > 3 then None
           else if acc' > 65535 then None
           else scan_hex cs (off + 1) acc'))"

text \<open>
  The group loop of \<open>parseIPv6\<close>: \<open>s\<close> is the text still to read, \<open>i\<close> the index of the
  next byte, \<open>ellipsis\<close> the byte index of \<open>::\<close> when one was seen. The result is the
  state at the \<open>break\<close> or at \<open>i = 16\<close>.
\<close>

function parseIPv6_loop ::
  "string \<Rightarrow> nat \<Rightarrow> nat list \<Rightarrow> nat option \<Rightarrow> (string \<times> nat \<times> nat list \<times> nat option) option" where
  "parseIPv6_loop s i bs ellipsis =
     (if \<not> i < 16 then Some (s, i, bs, ellipsis)
      else
        (case scan_hex s 0 0 of
           None \<Rightarrow> None
         | Some (off, acc) \<Rightarrow>
             if off = 0 then None
             else if off < length s \<and> s ! off = CHR ''.'' then
               (if ellipsis = None \<and> i \<noteq> 12 then None
                else if i + 4 > 16 then None
                else
                  (case parseIPv4Fields s of
                     None \<Rightarrow> None
                   | Some f \<Rightarrow>
                       Some ([], i + 4,
                             bs[i := f ! 0, i + 1 := f ! 1, i + 2 := f ! 2, i + 3 := f ! 3],
                             ellipsis)))
             else
               (let bs' = bs[i := acc div 256, i + 1 := acc mod 256];
                    i' = i + 2;
                    s' = drop off s
                in
                  if s' = [] then Some (s', i', bs', ellipsis)
                  else if hd s' \<noteq> CHR '':'' then None
                  else if length s' = 1 then None
                  else
                    (let s'' = tl s' in
                     if hd s'' = CHR '':'' then
                       (if ellipsis \<noteq> None then None
                        else if tl s'' = [] then Some ([], i', bs', Some i')
                        else parseIPv6_loop (tl s'') i' bs' (Some i'))
                     else parseIPv6_loop s'' i' bs' ellipsis))))"
  by pat_completeness auto
termination
  by (relation "measure (\<lambda>(s, i, bs, e). 16 - i)") auto

declare parseIPv6_loop.simps [simp del]

definition parseIPv6 :: "string \<Rightarrow> Addr option" where
  "parseIPv6 inp =
     (let s0 = takeWhile (\<lambda>c. c \<noteq> CHR ''%'') inp;
          has_zone = (CHR ''%'' \<in> set inp);
          zone = (if has_zone then tl (dropWhile (\<lambda>c. c \<noteq> CHR ''%'') inp) else [])
      in
        if has_zone \<and> zone = [] then None
        else
          (let lead = (length s0 \<ge> 2 \<and> s0 ! 0 = CHR '':'' \<and> s0 ! 1 = CHR '':'');
               s1 = (if lead then drop 2 s0 else s0);
               ellipsis0 = (if lead then Some 0 else None)
           in
             if lead \<and> s1 = [] then Some (Addr6 (replicate 16 0) zone)
             else
               (case parseIPv6_loop s1 0 (replicate 16 0) ellipsis0 of
                  None \<Rightarrow> None
                | Some (s, i, bs, ellipsis) \<Rightarrow>
                    if s \<noteq> [] then None
                    else if i < 16 then
                      (case ellipsis of
                         None \<Rightarrow> None
                       | Some e \<Rightarrow>
                           Some (Addr6 (take e bs @ replicate (16 - i) 0 @ take (i - e) (drop e bs))
                                       zone))
                    else if ellipsis \<noteq> None then None
                    else Some (Addr6 bs zone))))"

text \<open>\<open>ParseAddr\<close> looks for the first \<open>.\<close>, \<open>:\<close> or \<open>%\<close> and parses the whole text accordingly.\<close>

fun ParseAddr_scan :: "string \<Rightarrow> string \<Rightarrow> Addr option" where
  "ParseAddr_scan [] s = None"
| "ParseAddr_scan (c # cs) s =
     (if c = CHR ''.'' then parseIPv4 s
      else if c = CHR '':'' then parseIPv6 s
      else if c = CHR ''%'' then None
      else ParseAddr_scan cs s)"

definition ParseAddr :: "string \<Rightarrow> Addr option" where
  "ParseAddr s = ParseAddr_scan s s"

definition BitLen :: "Addr \<Rightarrow> nat" where
  "BitLen a = (case a of Addr4 _ \<Rightarrow> 32 | Addr6 _ _ \<Rightarrow> 128)"

definition withoutZone :: "Addr \<Rightarrow> Addr" where
  "withoutZone a = (case a of Addr4 f \<Rightarrow> Addr4 f | Addr6 bs _ \<Rightarrow> Addr6 bs [])"

text \<open>
  \<open>PrefixFrom\<close> keeps the address as given (no masking), drops the zone, and stores
  \<open>bits + 1\<close>, or 0 when \<open>bits\<close> is out of range (an invalid prefix).
\<close>

definition PrefixFrom :: "Addr \<Rightarrow> nat \<Rightarrow> Prefix" where
  "PrefixFrom a bits =
     \<lparr>ip = withoutZone a, bitsPlusOne = (if bits \<le> BitLen a then bits + 1 else 0)\<rparr>"

text \<open>
  The digits after the slash, read as \<open>strconv.Atoi\<close> reads them once \<open>ParsePrefix\<close> has
  refused a sign and a leading zero: every byte a digit, at least one.
\<close>

fun atoi_loop :: "string \<Rightarrow> nat \<Rightarrow> nat option" where
  "atoi_loop [] n = Some n"
| "atoi_loop (c # cs) n = (if is_digit c then atoi_loop cs (n * 10 + digit_val c) else None)"

definition Atoi :: "string \<Rightarrow> nat option" where
  "Atoi s = (if s = [] then None else atoi_loop s 0)"

definition last_slash :: "string \<Rightarrow> nat" where
  "last_slash s = length s - 1 - length (takeWhile (\<lambda>c. c \<noteq> CHR ''/'') (rev s))"

definition ParsePrefix :: "string \<Rightarrow> Prefix option" where
  "ParsePrefix s =
     (if CHR ''/'' \<notin> set s then None
      else
        (let i = last_slash s; bitsStr = drop (i + 1) s in
         case ParseAddr (take i s) of
           None \<Rightarrow> None
         | Some a \<Rightarrow>
             (case a of
                Addr6 _ (_ # _) \<Rightarrow> None
              | _ \<Rightarrow>
                  if length bitsStr > 1
                     \<and> \<not> (49 \<le> (of_char (hd bitsStr) :: nat) \<and> (of_char (hd bitsStr) :: nat) \<le> 57)
                  then None
                  else
                    (case Atoi bitsStr of
                       None \<Rightarrow> None
                     | Some bits \<Rightarrow> if bits > BitLen a then None else Some (PrefixFrom a bits)))))"

subsection \<open>\<open>caddyhttp.CIDRExpressionToPrefix\<close>\<close>

text \<open>
  A text with a slash is parsed as a prefix; any other text as a single address, which
  becomes the prefix of full length (32 or 128 bits).
\<close>

definition CIDRExpressionToPrefix :: "string \<Rightarrow> error + Prefix" where
  "CIDRExpressionToPrefix expr =
     (if CHR ''/'' \<in> set expr then
        (case ParsePrefix expr of None \<Rightarrow> Inl (CIDRError expr) | Some p \<Rightarrow> Inr p)
      else
        (case ParseAddr expr of
           None \<Rightarrow> Inl (IPError expr)
         | Some parsed \<Rightarrow> Inr (PrefixFrom parsed (BitLen parsed))))"

subsection \<open>Rendering (\<open>Addr.String\<close>, \<open>Prefix.String\<close>)\<close>














subsection \<open>Reading lines (\<open>bufio.Scanner\<close> with \<open>ScanLines\<close>)\<close>

text \<open>
  The body of a response is the bytes the scanner reads before the end of the input or
  a read error; the scanner treats the two alike. A line ends at a newline; one carriage
  return before it is dropped; a last line without newline is a line when it is not
  empty; an empty line is a line. The scanner's buffer holds \<open>MaxScanTokenSize\<close> bytes:
  when that many bytes hold no newline, \<open>Scan\<close> stops with \<open>ErrTooLong\<close> and returns false,
  as at the end of the input.
\<close>

definition MaxScanTokenSize :: nat where
  "MaxScanTokenSize = 64 * 1024"

definition newline :: char where
  "newline = CHR 0x0A"

definition dropCR :: "string \<Rightarrow> string" where
  "dropCR data = (if data \<noteq> [] \<and> last data = CHR 0x0D then butlast data else data)"

text \<open>The bytes before the first newline, and the bytes after it.\<close>

definition first_line :: "string \<Rightarrow> string" where
  "first_line data = takeWhile (\<lambda>c. c \<noteq> newline) data"

definition next_input :: "string \<Rightarrow> string" where
  "next_input data =
     (let rest = dropWhile (\<lambda>c. c \<noteq> newline) data in if rest = [] then [] else tl rest)"

text \<open>
  The split function \<open>ScanLines\<close> on all the bytes not yet read: \<open>None\<close> when there is
  no token left, otherwise the token and the bytes after it.
\<close>

definition ScanLines :: "string \<Rightarrow> (string \<times> string) option" where
  "ScanLines data =
     (if data = [] then None else Some (dropCR (first_line data), next_input data))"

text \<open>
  One call of \<open>Scan\<close> on the bytes not yet read: \<open>None\<close> when it returns false, otherwise
  the token (\<open>scanner.Text()\<close>) and the bytes left.
\<close>

definition Scan :: "string \<Rightarrow> (string \<times> string) option" where
  "Scan input =
     (if MaxScanTokenSize \<le> length (first_line input) then None else ScanLines input)"

text \<open>Every successful \<open>Scan\<close> consumes at least one byte.\<close>

lemma next_input_shorter:
  assumes "data \<noteq> []"
  shows "length (next_input data) < length data"
proof -
  let ?d = "dropWhile (\<lambda>c. c \<noteq> newline) data"
  have le: "length ?d \<le> length data"
    by (rule length_dropWhile_le)
  show ?thesis
  proof (cases ?d)
    case Nil
    with assms show ?thesis
      by (simp add: next_input_def del: dropWhile_eq_Nil_conv)
  next
    case (Cons a as)
    then have "length (next_input data) < length ?d"
      by (simp add: next_input_def del: dropWhile_eq_Nil_conv)
    with le show ?thesis by linarith
  qed
qed

lemma Scan_shorter:
  assumes "Scan input = Some (line, rest)"
  shows "length rest < length input"
proof -
  from assms have "input \<noteq> []" and "rest = next_input input"
    by (auto simp: Scan_def ScanLines_def split: if_splits)
  then show ?thesis
    by (simp add: next_input_shorter)
qed

text \<open>
  The lines of a body as text, whatever their length: the pieces between newlines
  (\<open>raw_lines\<close>), and the same with one carriage return dropped (\<open>text_lines\<close>), which
  is what \<open>ScanLines\<close> gives when it is called until no token is left.
\<close>

function raw_lines :: "string \<Rightarrow> string list" where
  "raw_lines data = (if data = [] then [] else first_line data # raw_lines (next_input data))"
  by pat_completeness auto
termination
  by (relation "measure length") (simp_all add: next_input_shorter)

declare raw_lines.simps [simp del]

definition text_lines :: "string \<Rightarrow> string list" where
  "text_lines data = map dropCR (raw_lines data)"

subsection \<open>The network\<close>

text \<open>
  A request is made under a context derived from the module's context: with a deadline
  (\<open>context.WithTimeout\<close>) or cancellable only (\<open>context.WithCancel\<close>). The network answers
  the \<open>n\<close>-th request with a transport error or with a body (whatever the status code),
  and keeps the list of the requests made.
\<close>

type_synonym caddy_Context = nat

datatype Context = WithTimeout caddy_Context int | WithCancel caddy_Context

record network =
  respond :: "nat \<Rightarrow> string \<Rightarrow> Context \<Rightarrow> error + string"
  sent :: "(string \<times> Context) list"

definition Do :: "network \<Rightarrow> string \<Rightarrow> Context \<Rightarrow> (error + string) \<times> network" where
  "Do net api c = (respond net (length (sent net)) api c, net\<lparr>sent := sent net @ [(api, c)]\<rparr>)"

subsection \<open>The module: \<open>CloudflareIPRange\<close>\<close>

text \<open>Durations are nanoseconds (\<open>caddy.Duration\<close>, an \<open>int64\<close>); none is computed with.\<close>

record CloudflareIPRange =
  Interval :: int
  Timeout :: int
  ranges :: "Prefix list"
  ctx :: caddy_Context
  lock :: bool   \<comment> \<open>the \<open>RWMutex\<close> is allocated\<close>

definition ipv4 :: string where
  "ipv4 = ''https://www.cloudflare.com/ips-v4''"

definition ipv6 :: string where
  "ipv6 = ''https://www.cloudflare.com/ips-v6''"

definition Hour :: int where
  "Hour = 3600 * 1000000000"

text \<open>The zero value, as \<open>new(CloudflareIPRange)\<close> in \<open>CaddyModule\<close> makes it.\<close>

definition New :: CloudflareIPRange where
  "New = \<lparr>Interval = 0, Timeout = 0, ranges = [], ctx = 0, lock = False\<rparr>"

definition getContext :: "CloudflareIPRange \<Rightarrow> Context" where
  "getContext s =
     (if Timeout s > 0 then WithTimeout (ctx s) (Timeout s) else WithCancel (ctx s))"

text \<open>
  The loop of \<open>fetch\<close>: \<open>for scanner.Scan()\<close>, parse the line, return the error or append.
  When \<open>Scan\<close> returns false the loop ends and the prefixes read so far are returned;
  \<open>scanner.Err()\<close> is not looked at.
\<close>

function fetch_loop :: "string \<Rightarrow> Prefix list \<Rightarrow> error + Prefix list" where
  "fetch_loop input prefixes =
     (case Scan input of
        None \<Rightarrow> Inr prefixes
      | Some (line, rest) \<Rightarrow>
          (case CIDRExpressionToPrefix line of
             Inl err \<Rightarrow> Inl err
           | Inr prefix \<Rightarrow> fetch_loop rest (prefixes @ [prefix])))"
  by pat_completeness auto
termination
proof (relation "measure (\<lambda>(input, prefixes). length input)")
  show "wf (measure (\<lambda>(input, prefixes). length input))"
    by simp
next
  fix input :: string and prefixes :: "Prefix list" and x2 line rest x1 prefix
  assume "Scan input = Some x2" and "(line, rest) = x2"
  then have "length rest < length input"
    using Scan_shorter [of input line rest] by simp
  then show "((rest, prefixes @ [prefix]), (input, prefixes))
               \<in> measure (\<lambda>(input, prefixes). length input)"
    by simp
qed

declare fetch_loop.simps [simp del]

definition fetch :: "CloudflareIPRange \<Rightarrow> network \<Rightarrow> string \<Rightarrow> (error + Prefix list) \<times> network" where
  "fetch s net api =
     (let c = getContext s; (resp, net') = Do net api c in
      case resp of
        Inl err \<Rightarrow> (Inl err, net')
      | Inr body \<Rightarrow> (fetch_loop body [], net'))"

text \<open>
  \<open>Provision\<close> returns the error (\<open>None\<close> is \<open>nil\<close>), the module and the network. The
  refresh loop is started (\<open>go s.refreshLoop()\<close>) exactly when the error is \<open>None\<close>.
\<close>

definition Provision ::
  "caddy_Context \<Rightarrow> CloudflareIPRange \<Rightarrow> network \<Rightarrow> error option \<times> CloudflareIPRange \<times> network" where
  "Provision c s0 net =
     (let s = s0\<lparr>ctx := c, lock := True\<rparr> in
      case fetch s net ipv4 of
        (Inl err, net1) \<Rightarrow> (Some err, s, net1)
      | (Inr prefixes, net1) \<Rightarrow>
          (let s1 = s\<lparr>ranges := ranges s @ prefixes\<rparr> in
           case fetch s1 net1 ipv6 of
             (Inl err, net2) \<Rightarrow> (Some err, s1, net2)
           | (Inr prefixes', net2) \<Rightarrow> (None, s1\<lparr>ranges := ranges s1 @ prefixes'\<rparr>, net2)))"

definition GetIPRanges :: "CloudflareIPRange \<Rightarrow> Prefix list" where
  "GetIPRanges s = ranges s"

subsection \<open>The refresh loop\<close>

text \<open>
  \<open>time.NewTicker\<close> panics unless the duration is positive. A ticker is its period and
  whether \<open>Stop\<close> was called.
\<close>

record ticker =
  period :: int
  stopped :: bool

definition NewTicker :: "int \<Rightarrow> ticker option" where
  "NewTicker d = (if d \<le> 0 then None else Some \<lparr>period = d, stopped = False\<rparr>)"

text \<open>The body of the case \<open><-ticker.C\<close>: one refresh.\<close>

definition tick :: "CloudflareIPRange \<Rightarrow> network \<Rightarrow> CloudflareIPRange \<times> network" where
  "tick s net =
     (case fetch s net ipv4 of
        (Inl err, net1) \<Rightarrow> (s, net1)
      | (Inr prefixes, net1) \<Rightarrow>
          (let fullPrefixes = [] @ prefixes in
           case fetch s net1 ipv6 of
             (Inl err, net2) \<Rightarrow> (s, net2)
           | (Inr prefixes', net2) \<Rightarrow> (s\<lparr>ranges := fullPrefixes @ prefixes'\<rparr>, net2)))"

text \<open>
  The \<open>select\<close> receives one event at a time: the ticker fired, or the module's context
  is done. The loop is run on the events that arrive; when they are used up it is
  blocked in the \<open>select\<close>, still running.
\<close>

datatype event = TickerC | CtxDone

datatype outcome =
    Panicked
  | Returned CloudflareIPRange network ticker
  | Blocked CloudflareIPRange network ticker

fun select_loop :: "event list \<Rightarrow> CloudflareIPRange \<Rightarrow> network \<Rightarrow> ticker \<Rightarrow> outcome" where
  "select_loop [] s net t = Blocked s net t"
| "select_loop (TickerC # evs) s net t = (case tick s net of (s', net') \<Rightarrow> select_loop evs s' net' t)"
| "select_loop (CtxDone # evs) s net t = Returned s net (t\<lparr>stopped := True\<rparr>)"

definition refreshLoop :: "event list \<Rightarrow> CloudflareIPRange \<Rightarrow> network \<Rightarrow> outcome" where
  "refreshLoop evs s0 net =
     (let s = (if Interval s0 = 0 then s0\<lparr>Interval := Hour\<rparr> else s0) in
      case NewTicker (Interval s) of
        None \<Rightarrow> Panicked
      | Some t \<Rightarrow> select_loop evs s net t)"


subsection \<open>The Caddyfile dispenser (\<open>caddyfile.Dispenser\<close>)\<close>

text \<open>
  A token is its file, its text and the line it starts on. The dispenser is the tokens,
  a cursor (\<open>-1\<close> before the first token) and the nesting depth. Each method returns
  its result and the dispenser after it. Two tokens are on the same line when they are
  of the same file and the first one ends on the line the second one starts on.
\<close>

record Token =
  File :: string
  Text :: string
  Line :: nat

record Dispenser =
  tokens :: "Token list"
  cursor :: int
  nesting :: int

definition NewDispenser :: "Token list \<Rightarrow> Dispenser" where
  "NewDispenser toks = \<lparr>tokens = toks, cursor = - 1, nesting = 0\<rparr>"

definition Val :: "Dispenser \<Rightarrow> string" where
  "Val d =
     (if cursor d < 0 \<or> cursor d \<ge> int (length (tokens d)) then []
      else Text (tokens d ! nat (cursor d)))"

definition Next :: "Dispenser \<Rightarrow> bool \<times> Dispenser" where
  "Next d =
     (if cursor d < int (length (tokens d)) - 1 then (True, d\<lparr>cursor := cursor d + 1\<rparr>)
      else (False, d))"

definition numLineBreaks :: "Token \<Rightarrow> nat" where
  "numLineBreaks t = length (filter (\<lambda>c. c = newline) (Text t))"

definition sameLine :: "Token \<Rightarrow> Token \<Rightarrow> bool" where
  "sameLine t1 t2 = (File t1 = File t2 \<and> Line t1 + numLineBreaks t1 = Line t2)"

definition nextOnSameLine :: "Dispenser \<Rightarrow> bool \<times> Dispenser" where
  "nextOnSameLine d =
     (if cursor d < 0 then (True, d\<lparr>cursor := cursor d + 1\<rparr>)
      else if cursor d \<ge> int (length (tokens d)) then (False, d)
      else if cursor d < int (length (tokens d)) - 1
              \<and> sameLine (tokens d ! nat (cursor d)) (tokens d ! nat (cursor d + 1))
      then (True, d\<lparr>cursor := cursor d + 1\<rparr>)
      else (False, d))"

definition NextArg :: "Dispenser \<Rightarrow> bool \<times> Dispenser" where
  "NextArg d =
     (case nextOnSameLine d of
        (False, d1) \<Rightarrow> (False, d1)
      | (True, d1) \<Rightarrow>
          if Val d1 = ''{'' then (False, d1\<lparr>cursor := cursor d1 - 1\<rparr>) else (True, d1))"

text \<open>
  \<open>NextBlock\<close>. Inside a block it moves to the next token and counts a brace that ends
  its line; the test \<open>!d.nextOnSameLine()\<close> moves the cursor when the next token is on
  the same line. Outside a block it enters one that opens on the same line.
\<close>

definition opening_brace :: "Dispenser \<Rightarrow> Dispenser" where
  "opening_brace d =
     (if Val d = ''{'' then
        (case nextOnSameLine d of
           (False, d1) \<Rightarrow> d1\<lparr>nesting := nesting d1 + 1\<rparr>
         | (True, d1) \<Rightarrow> d1)
      else d)"

definition NextBlock :: "int \<Rightarrow> Dispenser \<Rightarrow> bool \<times> Dispenser" where
  "NextBlock initialNestingLevel d =
     (if nesting d > initialNestingLevel then
        (case Next d of
           (False, d1) \<Rightarrow> (False, d1)
         | (True, d1) \<Rightarrow>
             (let d3 =
                (if Val d1 = ''}'' then
                   (case nextOnSameLine d1 of
                      (False, d2) \<Rightarrow> d2\<lparr>nesting := nesting d2 - 1\<rparr>
                    | (True, d2) \<Rightarrow> opening_brace d2)
                 else opening_brace d1)
              in (nesting d3 > initialNestingLevel, d3)))
      else
        (case nextOnSameLine d of
           (False, d1) \<Rightarrow> (False, d1)
         | (True, d1) \<Rightarrow>
             if Val d1 \<noteq> ''{'' then (False, d1\<lparr>cursor := cursor d1 - 1\<rparr>)
             else
               (let d2 = snd (Next d1) in
                if Val d2 = ''}'' then (False, d2)
                else (True, d2\<lparr>nesting := nesting d2 + 1\<rparr>))))"

definition ArgErr_at :: "Dispenser \<Rightarrow> error" where
  "ArgErr_at d = ArgErr (Val d)"

subsection \<open>\<open>UnmarshalCaddyfile\<close>\<close>

text \<open>
  \<open>caddy.ParseDuration\<close> is the argument \<open>pd\<close>. The \<open>switch\<close> on one sub-directive is
  \<open>directive\<close>; the loop \<open>for d.NextBlock(0)\<close> is \<open>block_loop\<close>; the loop \<open>for d.Next()\<close>
  is \<open>unmarshal_loop\<close>. Each returns the error (\<open>None\<close> is \<open>nil\<close>), the module and the
  dispenser.
\<close>

type_synonym ParseDuration = "string \<Rightarrow> error + int"

definition directive ::
  "ParseDuration \<Rightarrow> CloudflareIPRange \<Rightarrow> Dispenser \<Rightarrow> error option \<times> CloudflareIPRange \<times> Dispenser" where
  "directive pd m d =
     (if Val d = ''interval'' then
        (case NextArg d of
           (False, d1) \<Rightarrow> (Some (ArgErr_at d1), m, d1)
         | (True, d1) \<Rightarrow>
             (case pd (Val d1) of
                Inl err \<Rightarrow> (Some err, m, d1)
              | Inr v \<Rightarrow> (None, m\<lparr>Interval := v\<rparr>, d1)))
      else if Val d = ''timeout'' then
        (case NextArg d of
           (False, d1) \<Rightarrow> (Some (ArgErr_at d1), m, d1)
         | (True, d1) \<Rightarrow>
             (case pd (Val d1) of
                Inl err \<Rightarrow> (Some err, m, d1)
              | Inr v \<Rightarrow> (None, m\<lparr>Timeout := v\<rparr>, d1)))
      else (Some (ArgErr_at d), m, d))"

definition remaining :: "Dispenser \<Rightarrow> nat" where
  "remaining d = nat (int (length (tokens d)) - cursor d)"

lemma Next_remaining:
  "Next d = (b, d') \<Longrightarrow> remaining d' \<le> remaining d \<and> (b \<longrightarrow> remaining d' < remaining d)"
  by (auto simp: Next_def remaining_def split: if_splits)

lemma nextOnSameLine_remaining:
  "nextOnSameLine d = (b, d') \<Longrightarrow> remaining d' \<le> remaining d \<and> (b \<longrightarrow> remaining d' < remaining d)"
  by (auto simp: nextOnSameLine_def remaining_def split: if_splits)

lemma NextArg_remaining: "NextArg d = (b, d') \<Longrightarrow> remaining d' \<le> remaining d"
  by (auto simp: NextArg_def nextOnSameLine_def remaining_def split: if_splits prod.splits bool.splits)

lemma opening_brace_remaining: "remaining (opening_brace d) \<le> remaining d"
  by (auto simp: opening_brace_def nextOnSameLine_def remaining_def split: if_splits prod.splits bool.splits)

lemma nesting_update_remaining [simp]: "remaining (d\<lparr>nesting := n\<rparr>) = remaining d"
  by (simp add: remaining_def)

lemma NextBlock_remaining:
  assumes "NextBlock n d = (True, d')"
  shows "remaining d' < remaining d"
proof (cases "nesting d > n")
  case True
  with assms obtain d1 where n1: "Next d = (True, d1)"
    by (auto simp: NextBlock_def split: prod.splits bool.splits)
  then have lt: "remaining d1 < remaining d"
    using Next_remaining by blast
  have "remaining d' \<le> remaining d1"
  proof (cases "Val d1 = ''}''")
    case v: True
    obtain b d2 where s: "nextOnSameLine d1 = (b, d2)"
      by (cases "nextOnSameLine d1")
    then have le: "remaining d2 \<le> remaining d1"
      using nextOnSameLine_remaining by blast
    show ?thesis
    proof (cases b)
      case True
      with assms \<open>nesting d > n\<close> n1 v s have "d' = opening_brace d2"
        by (simp add: NextBlock_def Let_def)
      with le opening_brace_remaining [of d2] show ?thesis by simp
    next
      case False
      with assms \<open>nesting d > n\<close> n1 v s have "d' = d2\<lparr>nesting := nesting d2 - 1\<rparr>"
        by (simp add: NextBlock_def Let_def)
      with le show ?thesis by simp
    qed
  next
    case False
    with assms \<open>nesting d > n\<close> n1 have "d' = opening_brace d1"
      by (simp add: NextBlock_def Let_def)
    with opening_brace_remaining [of d1] show ?thesis by simp
  qed
  with lt show ?thesis by simp
next
  case False
  with assms obtain d1 where s: "nextOnSameLine d = (True, d1)"
    and d': "d' = (snd (Next d1))\<lparr>nesting := nesting (snd (Next d1)) + 1\<rparr>"
    by (auto simp: NextBlock_def Let_def split: prod.splits bool.splits if_splits)
  from s have "remaining d1 < remaining d"
    using nextOnSameLine_remaining by blast
  moreover have "remaining (snd (Next d1)) \<le> remaining d1"
    using Next_remaining [of d1 "fst (Next d1)" "snd (Next d1)"] by simp
  ultimately show ?thesis
    using d' by simp
qed

lemma directive_remaining: "directive pd m d = (e, m', d') \<Longrightarrow> remaining d' \<le> remaining d"
  by (auto simp: directive_def split: if_splits prod.splits bool.splits sum.splits
      dest: NextArg_remaining)

function block_loop ::
  "ParseDuration \<Rightarrow> CloudflareIPRange \<Rightarrow> Dispenser \<Rightarrow> error option \<times> CloudflareIPRange \<times> Dispenser" where
  "block_loop pd m d =
     (case NextBlock 0 d of
        (False, d1) \<Rightarrow> (None, m, d1)
      | (True, d1) \<Rightarrow>
          (case directive pd m d1 of
             (Some err, m', d2) \<Rightarrow> (Some err, m', d2)
           | (None, m', d2) \<Rightarrow> block_loop pd m' d2))"
  by pat_completeness auto
termination
proof (relation "measure (\<lambda>(pd, m, d). remaining d)")
  show "wf (measure (\<lambda>(pd, m, d). remaining d))"
    by simp
next
  fix pd :: ParseDuration and m :: CloudflareIPRange and d :: Dispenser
    and x1 d1 and x y :: "error option" and m' d2 p and b :: bool
  assume "(x1, d1) = NextBlock 0 d" and "x1 = True"
    and "(y, p) = directive pd m d1" and "(m', d2) = p" and "y = None"
  then have nb: "NextBlock 0 d = (True, d1)" and dr: "directive pd m d1 = (None, m', d2)"
    by simp_all
  from nb have "remaining d1 < remaining d"
    by (rule NextBlock_remaining)
  moreover from dr have "remaining d2 \<le> remaining d1"
    by (rule directive_remaining)
  ultimately show "((pd, m', d2), (pd, m, d)) \<in> measure (\<lambda>(pd, m, d). remaining d)"
    by simp
qed

declare block_loop.simps [simp del]

lemma NextBlock_remaining_le: "NextBlock n d = (b, d') \<Longrightarrow> remaining d' \<le> remaining d"
proof (cases b)
  case True
  assume "NextBlock n d = (b, d')"
  with True show ?thesis
    using NextBlock_remaining [of n d d'] by simp
next
  case False
  assume nb: "NextBlock n d = (b, d')"
  show ?thesis
  proof (cases "nesting d > n")
    case True
    obtain b1 d1 where n1: "Next d = (b1, d1)"
      by (cases "Next d")
    then have le1: "remaining d1 \<le> remaining d"
      using Next_remaining by blast
    show ?thesis
    proof (cases b1)
      case False
      with nb True n1 have "d' = d1"
        by (simp add: NextBlock_def)
      with le1 show ?thesis by simp
    next
      case b1: True
      have "remaining d' \<le> remaining d1"
      proof (cases "Val d1 = ''}''")
        case v: True
        obtain b2 d2 where s: "nextOnSameLine d1 = (b2, d2)"
          by (cases "nextOnSameLine d1")
        then have le: "remaining d2 \<le> remaining d1"
          using nextOnSameLine_remaining by blast
        show ?thesis
        proof (cases b2)
          case True
          with nb \<open>nesting d > n\<close> n1 b1 v s have "d' = opening_brace d2"
            by (simp add: NextBlock_def Let_def)
          with le opening_brace_remaining [of d2] show ?thesis by simp
        next
          case False
          with nb \<open>nesting d > n\<close> n1 b1 v s have "d' = d2\<lparr>nesting := nesting d2 - 1\<rparr>"
            by (simp add: NextBlock_def Let_def)
          with le show ?thesis by simp
        qed
      next
        case False
        with nb \<open>nesting d > n\<close> n1 b1 have "d' = opening_brace d1"
          by (simp add: NextBlock_def Let_def)
        with opening_brace_remaining [of d1] show ?thesis by simp
      qed
      with le1 show ?thesis by simp
    qed
  next
    case False
    obtain b1 d1 where s: "nextOnSameLine d = (b1, d1)"
      by (cases "nextOnSameLine d")
    then have le1: "remaining d1 \<le> remaining d" and lt1: "b1 \<longrightarrow> remaining d1 < remaining d"
      using nextOnSameLine_remaining by blast+
    have le2: "remaining (snd (Next d1)) \<le> remaining d1"
      using Next_remaining [of d1 "fst (Next d1)" "snd (Next d1)"] by simp
    have rb: "remaining (d1\<lparr>cursor := cursor d1 - 1\<rparr>) \<le> Suc (remaining d1)"
      by (simp add: remaining_def)
    from nb False s have "d' = d1 \<or> d' = d1\<lparr>cursor := cursor d1 - 1\<rparr> \<and> b1
        \<or> d' = snd (Next d1) \<or> d' = (snd (Next d1))\<lparr>nesting := nesting (snd (Next d1)) + 1\<rparr>"
      by (auto simp: NextBlock_def Let_def split: if_splits bool.splits)
    with le1 lt1 le2 rb show ?thesis
      by auto
  qed
qed

lemma block_loop_remaining: "block_loop pd m d = (e, m', d') \<Longrightarrow> remaining d' \<le> remaining d"
proof (induction pd m d arbitrary: e m' d' rule: block_loop.induct)
  case (1 pd m d)
  obtain b d1 where nb: "NextBlock 0 d = (b, d1)"
    by (cases "NextBlock 0 d")
  then have le1: "remaining d1 \<le> remaining d"
    by (rule NextBlock_remaining_le)
  show ?case
  proof (cases b)
    case False
    with "1.prems" nb have "d' = d1"
      by (subst (asm) block_loop.simps) simp
    with le1 show ?thesis by simp
  next
    case True
    obtain e1 m1 d2 where dr: "directive pd m d1 = (e1, m1, d2)"
      by (cases "directive pd m d1")
    then have le2: "remaining d2 \<le> remaining d1"
      by (rule directive_remaining)
    show ?thesis
    proof (cases e1)
      case None
      with "1.prems" nb True dr have blk: "block_loop pd m1 d2 = (e, m', d')"
        by (subst (asm) block_loop.simps) simp
      from True have bt: "b = True"
        by simp
      have "remaining d' \<le> remaining d2"
        by (rule "1.IH" [OF nb [symmetric] bt dr [symmetric] None refl blk])
      with le1 le2 show ?thesis by simp
    next
      case (Some err)
      with "1.prems" nb True dr have "d' = d2"
        by (subst (asm) block_loop.simps) simp
      with le1 le2 show ?thesis by simp
    qed
  qed
qed

function unmarshal_loop ::
  "ParseDuration \<Rightarrow> CloudflareIPRange \<Rightarrow> Dispenser \<Rightarrow> error option \<times> CloudflareIPRange \<times> Dispenser" where
  "unmarshal_loop pd m d =
     (case Next d of
        (False, d1) \<Rightarrow> (None, m, d1)
      | (True, d1) \<Rightarrow>
          (case NextArg d1 of
             (True, d2) \<Rightarrow> (Some (ArgErr_at d2), m, d2)
           | (False, d2) \<Rightarrow>
               (case block_loop pd m d2 of
                  (Some err, m', d3) \<Rightarrow> (Some err, m', d3)
                | (None, m', d3) \<Rightarrow> unmarshal_loop pd m' d3)))"
  by pat_completeness auto
termination
proof (relation "measure (\<lambda>(pd, m, d). remaining d)")
  show "wf (measure (\<lambda>(pd, m, d). remaining d))"
    by simp
next
  fix pd :: ParseDuration and m :: CloudflareIPRange and d :: Dispenser
    and x1 d1 x2 d2 and y :: "error option" and p m' d3
  assume "(x1, d1) = Next d" and "x1 = True" and "(x2, d2) = NextArg d1" and "x2 = False"
    and "(y, p) = block_loop pd m d2" and "(m', d3) = p" and "y = None"
  then have n: "Next d = (True, d1)" and a: "NextArg d1 = (False, d2)"
    and b: "block_loop pd m d2 = (None, m', d3)"
    by simp_all
  from n have "remaining d1 < remaining d"
    using Next_remaining by blast
  moreover from a have "remaining d2 \<le> remaining d1"
    by (rule NextArg_remaining)
  moreover from b have "remaining d3 \<le> remaining d2"
    by (rule block_loop_remaining)
  ultimately show "((pd, m', d3), (pd, m, d)) \<in> measure (\<lambda>(pd, m, d). remaining d)"
    by simp
qed

declare unmarshal_loop.simps [simp del]

definition UnmarshalCaddyfile ::
  "ParseDuration \<Rightarrow> CloudflareIPRange \<Rightarrow> Dispenser \<Rightarrow> error option \<times> CloudflareIPRange \<times> Dispenser" where
  "UnmarshalCaddyfile pd m d = unmarshal_loop pd m d"

subsection \<open>Blocks of sub-directives\<close>

text \<open>
  What the statements about \<open>UnmarshalCaddyfile\<close> are written with: the dispenser with
  its cursor on the \<open>i\<close>-th token; a sub-directive as the pair of its keyword and its
  argument, well-formed when the keyword is \<open>interval\<close> or \<open>timeout\<close>, the argument is on
  the keyword's line and is no opening brace, and the duration parses; what one
  sub-directive stores; the tokens of a list of sub-directives; and the rest of the loop
  \<open>for d.NextBlock(0)\<close> after \<open>NextBlock\<close> has returned true.
\<close>

definition cursor_at :: "Token list \<Rightarrow> nat \<Rightarrow> int \<Rightarrow> Dispenser" where
  "cursor_at toks i n = \<lparr>tokens = toks, cursor = int i, nesting = n\<rparr>"



definition sub_tokens :: "(Token \<times> Token) list \<Rightarrow> Token list" where
  "sub_tokens subs = concat (map (\<lambda>kv. [fst kv, snd kv]) subs)"


section \<open>Sample inputs\<close>

text \<open>
  Two bodies as the lists serve them, the prefixes they hold, and four networks: both
  lists served, the first one failing, the second one failing, both bodies empty.
\<close>

definition body_v4 :: string where
  "body_v4 = ''173.245.48.0/20'' @ [newline] @ ''103.21.244.0/22'' @ [newline]"

definition body_v6 :: string where
  "body_v6 = ''2400:cb00::/32'' @ [newline] @ ''2606:4700::/32'' @ [newline]"

definition prefixes_v4 :: "Prefix list" where
  "prefixes_v4 = [\<lparr>ip = Addr4 [173, 245, 48, 0], bitsPlusOne = 21\<rparr>,
                  \<lparr>ip = Addr4 [103, 21, 244, 0], bitsPlusOne = 23\<rparr>]"

definition prefixes_v6 :: "Prefix list" where
  "prefixes_v6 =
     [\<lparr>ip = Addr6 [36, 0, 203, 0, 0, 0, 0, 0, 0, 0, 0, 0, 0, 0, 0, 0] [], bitsPlusOne = 33\<rparr>,
      \<lparr>ip = Addr6 [38, 6, 71, 0, 0, 0, 0, 0, 0, 0, 0, 0, 0, 0, 0, 0] [], bitsPlusOne = 33\<rparr>]"

definition net_up :: network where
  "net_up = \<lparr>respond = (\<lambda>n api c. if api = ipv4 then Inr body_v4 else Inr body_v6), sent = []\<rparr>"

definition net_v4_down :: network where
  "net_v4_down =
     \<lparr>respond = (\<lambda>n api c. if api = ipv4 then Inl (TransportError 1) else Inr body_v6), sent = []\<rparr>"

definition net_v6_down :: network where
  "net_v6_down =
     \<lparr>respond = (\<lambda>n api c. if api = ipv4 then Inr body_v4 else Inl (TransportError 2)), sent = []\<rparr>"

definition net_empty :: network where
  "net_empty = \<lparr>respond = (\<lambda>n api c. Inr []), sent = []\<rparr>"

text \<open>
  A body with an upper-case IPv6 prefix and a bare IPv4 address; a body whose second line
  is \<open>MaxScanTokenSize\<close> bytes long; a body whose second line is not an address.
\<close>

definition body_mixed :: string where
  "body_mixed = ''2001:DB8::/32'' @ [newline] @ ''192.0.2.1'' @ [newline]"

definition prefixes_mixed :: "Prefix list" where
  "prefixes_mixed =
     [\<lparr>ip = Addr6 [32, 1, 13, 184, 0, 0, 0, 0, 0, 0, 0, 0, 0, 0, 0, 0] [], bitsPlusOne = 33\<rparr>,
      \<lparr>ip = Addr4 [192, 0, 2, 1], bitsPlusOne = 33\<rparr>]"


definition long_line :: string where
  "long_line = replicate 65536 (CHR ''x'')"

definition body_long :: string where
  "body_long = ''173.245.48.0/20'' @ [newline] @ long_line @ [newline] @ ''not-a-cidr'' @ [newline]"

definition net_long :: network where
  "net_long = \<lparr>respond = (\<lambda>n api c. Inr body_long), sent = []\<rparr>"

definition body_bad :: string where
  "body_bad = ''173.245.48.0/20'' @ [newline] @ ''not-a-cidr'' @ [newline] @ ''103.21.244.0/22'' @ [newline]"

definition net_bad :: network where
  "net_bad = \<lparr>respond = (\<lambda>n api c. Inr body_bad), sent = []\<rparr>"

text \<open>
  A token of the file \<open>Caddyfile\<close>, and what \<open>caddy.ParseDuration\<close> gives on the two
  durations of the module's test (90 minutes and 30 seconds, in nanoseconds).
\<close>

definition tok :: "string \<Rightarrow> nat \<Rightarrow> Token" where
  "tok s l = \<lparr>File = ''Caddyfile'', Text = s, Line = l\<rparr>"

definition sample_ParseDuration :: ParseDuration where
  "sample_ParseDuration s =
     (if s = ''1.5h'' then Inr 5400000000000
      else if s = ''30s'' then Inr 30000000000
      else Inl (DurationError s))"

text \<open>A module that was provisioned some time ago and holds one stale prefix.\<close>

definition stale :: CloudflareIPRange where
  "stale = \<lparr>Interval = 0, Timeout = 0,
            ranges = [\<lparr>ip = Addr4 [192, 0, 2, 0], bitsPlusOne = 25\<rparr>], ctx = 1, lock = True\<rparr>"

definition ticker0 :: ticker where
  "ticker0 = \<lparr>period = Hour, stopped = False\<rparr>"

section \<open>Properties\<close>

subsection \<open>Helper facts\<close>

lemma fetch_eq:
  "fetch s net api =
     ((case respond net (length (sent net)) api (getContext s) of
         Inl err \<Rightarrow> Inl err
       | Inr body \<Rightarrow> fetch_loop body []),
      net\<lparr>sent := sent net @ [(api, getContext s)]\<rparr>)"
  by (simp add: fetch_def Do_def split: sum.splits)

lemma fetch_cong:
  "Timeout s' = Timeout s \<Longrightarrow> ctx s' = ctx s \<Longrightarrow> fetch s' net api = fetch s net api"
  by (simp add: fetch_eq getContext_def)

lemma fetch_loop_body_v4: "fetch_loop body_v4 [] = Inr prefixes_v4"
  by code_simp

lemma fetch_loop_body_v6: "fetch_loop body_v6 [] = Inr prefixes_v6"
  by code_simp

lemma fetch_loop_Nil: "fetch_loop [] acc = Inr acc"
  by (subst fetch_loop.simps) (simp add: Scan_def ScanLines_def MaxScanTokenSize_def)

text \<open>The loop of \<open>fetch\<close>, one call of \<open>Scan\<close> at a time, and on a whole body.\<close>

lemma raw_lines_Nil: "raw_lines [] = []"
  by (subst raw_lines.simps) simp

lemma raw_lines_Cons:
  "data \<noteq> [] \<Longrightarrow>
     raw_lines data = first_line data # raw_lines (next_input data)"
  by (subst raw_lines.simps) simp

lemma Scan_short:
  "data \<noteq> [] \<Longrightarrow> length (first_line data) < MaxScanTokenSize \<Longrightarrow>
     Scan data = Some (dropCR (first_line data), next_input data)"
  by (simp add: Scan_def ScanLines_def)

lemma Scan_long:
  "MaxScanTokenSize \<le> length (first_line data) \<Longrightarrow> Scan data = None"
  by (simp add: Scan_def)

lemma fetch_loop_step:
  "Scan data = Some (line, rest) \<Longrightarrow> CIDRExpressionToPrefix line = Inr p \<Longrightarrow>
     fetch_loop data acc = fetch_loop rest (acc @ [p])"
  by (subst fetch_loop.simps) simp

lemma fetch_loop_error:
  "Scan data = Some (line, rest) \<Longrightarrow> CIDRExpressionToPrefix line = Inl e \<Longrightarrow>
     fetch_loop data acc = Inl e"
  by (subst fetch_loop.simps) simp

lemma fetch_loop_stop: "Scan data = None \<Longrightarrow> fetch_loop data acc = Inr acc"
  by (subst fetch_loop.simps) simp


lemma fetch_loop_first_error:
  "text_lines data = pre @ l # post \<Longrightarrow>
   \<forall>r \<in> set (take (Suc (length pre)) (raw_lines data)). length r < MaxScanTokenSize \<Longrightarrow>
   \<forall>x \<in> set pre. \<exists>p. CIDRExpressionToPrefix x = Inr p \<Longrightarrow>
   CIDRExpressionToPrefix l = Inl e \<Longrightarrow>
   fetch_loop data acc = Inl e"
proof (induction pre arbitrary: data acc)
  case Nil
  then have ne: "data \<noteq> []"
    by (auto simp: text_lines_def raw_lines_Nil)
  let ?raw = "first_line data"
  have rl: "raw_lines data = ?raw # raw_lines (next_input data)"
    using ne by (rule raw_lines_Cons)
  from Nil.prems(1) rl have l: "l = dropCR ?raw"
    by (simp add: text_lines_def)
  from Nil.prems(2) rl have "length ?raw < MaxScanTokenSize"
    by simp
  with ne have "Scan data = Some (dropCR ?raw, next_input data)"
    by (rule Scan_short)
  then show ?case
    using Nil.prems(4) l by (simp add: fetch_loop_error)
next
  case (Cons x pre)
  then have ne: "data \<noteq> []"
    by (auto simp: text_lines_def raw_lines_Nil)
  let ?raw = "first_line data"
  have rl: "raw_lines data = ?raw # raw_lines (next_input data)"
    using ne by (rule raw_lines_Cons)
  from Cons.prems(1) rl have x: "x = dropCR ?raw"
    and rest: "text_lines (next_input data) = pre @ l # post"
    by (simp_all add: text_lines_def)
  from Cons.prems(2) rl have short: "length ?raw < MaxScanTokenSize"
    and rest_short: "\<forall>r \<in> set (take (Suc (length pre)) (raw_lines (next_input data))).
                       length r < MaxScanTokenSize"
    by simp_all
  from Cons.prems(3) obtain p where p: "CIDRExpressionToPrefix x = Inr p"
    and pre_ok: "\<forall>x \<in> set pre. \<exists>p. CIDRExpressionToPrefix x = Inr p"
    by auto
  have "Scan data = Some (x, next_input data)"
    using Scan_short [OF ne short] x by simp
  then have "fetch_loop data acc = fetch_loop (next_input data) (acc @ [p])"
    using p by (rule fetch_loop_step)
  also have "\<dots> = Inl e"
    using rest rest_short pre_ok Cons.prems(4) by (rule Cons.IH)
  finally show ?case .
qed


text \<open>Lines of the sample bodies.\<close>

lemma first_line_split: "newline \<notin> set l \<Longrightarrow> first_line (l @ newline # rest) = l"
  by (induction l) (auto simp: first_line_def)

lemma next_input_split: "newline \<notin> set l \<Longrightarrow> next_input (l @ newline # rest) = rest"
proof -
  assume "newline \<notin> set l"
  then have "dropWhile (\<lambda>c. c \<noteq> newline) (l @ newline # rest) = newline # rest"
    by (induction l) auto
  then show ?thesis
    by (simp add: next_input_def)
qed

lemma raw_lines_split:
  "newline \<notin> set l \<Longrightarrow> raw_lines (l @ newline # rest) = l # raw_lines rest"
  by (simp add: raw_lines_Cons first_line_split next_input_split)


lemma raw_lines_body_mixed: "raw_lines body_mixed = [''2001:DB8::/32'', ''192.0.2.1'']"
  by code_simp

lemma parse_mixed:
  "CIDRExpressionToPrefix ''2001:DB8::/32'' = Inr (prefixes_mixed ! 0)"
  "CIDRExpressionToPrefix ''192.0.2.1'' = Inr (prefixes_mixed ! 1)"
  by code_simp+



lemma newline_notin_long_line: "newline \<notin> set long_line"
  by (simp add: long_line_def newline_def)

lemma length_long_line: "length long_line = 65536"
  by (simp add: long_line_def)

lemma ParseAddr_scan_replicate:
  "c \<noteq> CHR ''.'' \<Longrightarrow> c \<noteq> CHR '':'' \<Longrightarrow> c \<noteq> CHR ''%'' \<Longrightarrow> ParseAddr_scan (replicate n c) s = None"
  by (induction n) simp_all

lemma parse_long_line: "CIDRExpressionToPrefix long_line = Inl (IPError long_line)"
  by (simp add: CIDRExpressionToPrefix_def ParseAddr_def long_line_def ParseAddr_scan_replicate)

lemma parse_sample_lines:
  "CIDRExpressionToPrefix ''173.245.48.0/20'' = Inr (prefixes_v4 ! 0)"
  "CIDRExpressionToPrefix ''not-a-cidr'' = Inl (IPError ''not-a-cidr'')"
  by code_simp+

lemma text_lines_body_long:
  "text_lines body_long = [''173.245.48.0/20'', long_line, ''not-a-cidr'']"
proof -
  have a: "newline \<notin> set ''173.245.48.0/20''" "newline \<notin> set ''not-a-cidr''"
    by (simp_all add: newline_def)
  have d: "dropCR ''173.245.48.0/20'' = ''173.245.48.0/20''" "dropCR ''not-a-cidr'' = ''not-a-cidr''"
    "dropCR long_line = long_line"
    by (simp_all add: dropCR_def long_line_def)
  have b: "body_long = ''173.245.48.0/20'' @ newline # long_line @ newline # ''not-a-cidr'' @ newline # []"
    by (simp add: body_long_def)
  have "raw_lines body_long = [''173.245.48.0/20'', long_line, ''not-a-cidr'']"
    by (subst b)
      (simp only: raw_lines_split [OF a(1)] raw_lines_split [OF newline_notin_long_line]
        raw_lines_split [OF a(2)] raw_lines_Nil)
  then show ?thesis
    using d by (simp add: text_lines_def)
qed

lemma fetch_loop_body_long: "fetch_loop body_long [] = Inr [prefixes_v4 ! 0]"
proof -
  have a: "newline \<notin> set ''173.245.48.0/20''"
    by (simp add: newline_def)
  let ?rest = "long_line @ newline # ''not-a-cidr'' @ [newline]"
  have b: "body_long = ''173.245.48.0/20'' @ newline # ?rest"
    by (simp add: body_long_def)
  have fl: "first_line body_long = ''173.245.48.0/20''"
    unfolding b using a by (rule first_line_split)
  have ni: "next_input body_long = ?rest"
    unfolding b using a by (rule next_input_split)
  have ne: "body_long \<noteq> []"
    by (simp add: body_long_def)
  have "Scan body_long = Some (dropCR (first_line body_long), next_input body_long)"
    using ne by (rule Scan_short) (simp add: fl MaxScanTokenSize_def)
  then have "Scan body_long = Some (''173.245.48.0/20'', ?rest)"
    by (simp add: fl ni dropCR_def)
  then have "fetch_loop body_long [] = fetch_loop ?rest ([] @ [prefixes_v4 ! 0])"
    using parse_sample_lines(1) by (rule fetch_loop_step)
  moreover have "Scan ?rest = None"
    by (rule Scan_long)
      (simp add: first_line_split [OF newline_notin_long_line] length_long_line MaxScanTokenSize_def)
  ultimately show ?thesis
    by (simp add: fetch_loop_stop)
qed

lemma fetch_loop_body_bad: "fetch_loop body_bad [] = Inl (IPError ''not-a-cidr'')"
  by code_simp




lemma ipv4_neq_ipv6: "ipv4 \<noteq> ipv6" "ipv6 \<noteq> ipv4"
  by (simp_all add: ipv4_def ipv6_def)

lemma select_loop_not_Panicked: "select_loop evs s net t \<noteq> Panicked"
proof (induction evs arbitrary: s net)
  case Nil
  show ?case by simp
next
  case (Cons ev evs)
  show ?case
  proof (cases ev)
    case TickerC
    then show ?thesis using Cons.IH by (simp split: prod.splits)
  next
    case CtxDone
    then show ?thesis by simp
  qed
qed

lemma Provision_eq:
  "Provision c s0 net =
     (case fetch (s0\<lparr>ctx := c, lock := True\<rparr>) net ipv4 of
        (Inl err, net1) \<Rightarrow> (Some err, s0\<lparr>ctx := c, lock := True\<rparr>, net1)
      | (Inr p4, net1) \<Rightarrow>
          (case fetch (s0\<lparr>ctx := c, lock := True\<rparr>) net1 ipv6 of
             (Inl err, net2) \<Rightarrow> (Some err, s0\<lparr>ctx := c, lock := True, ranges := ranges s0 @ p4\<rparr>, net2)
           | (Inr p6, net2) \<Rightarrow>
               (None, s0\<lparr>ctx := c, lock := True, ranges := ranges s0 @ p4 @ p6\<rparr>, net2)))"
proof -
  have "fetch (s0\<lparr>ctx := c, lock := True, ranges := ranges s0 @ p\<rparr>) n api
          = fetch (s0\<lparr>ctx := c, lock := True\<rparr>) n api" for p n api
    by (rule fetch_cong) simp_all
  then show ?thesis
    by (simp add: Provision_def Let_def split: prod.splits sum.splits)
qed

lemma Provision_net_empty:
  "Provision 1 New net_empty
     = (None, New\<lparr>ctx := 1, lock := True\<rparr>,
        net_empty\<lparr>sent := [(ipv4, WithCancel 1), (ipv6, WithCancel 1)]\<rparr>)"
  by (simp add: Provision_eq fetch_eq net_empty_def New_def getContext_def fetch_loop_Nil)







lemma nesting_at [simp]: "nesting (cursor_at toks i n) = n"
  by (simp add: cursor_at_def)

lemma nesting_update_at [simp]: "(cursor_at toks i n)\<lparr>nesting := k\<rparr> = cursor_at toks i k"
  by (simp add: cursor_at_def)










lemma sub_tokens_Cons: "sub_tokens (kv # subs) = fst kv # snd kv # sub_tokens subs"
  by (simp add: sub_tokens_def)

lemma sub_tokens_Nil: "sub_tokens [] = []"
  by (simp add: sub_tokens_def)


lemma length_sub_tokens: "length (sub_tokens subs) = 2 * length subs"
  by (induction subs) (simp_all add: sub_tokens_Cons sub_tokens_Nil)






lemma length_after_subs:
  "length (name # opn # sub_tokens subs @ rest) = 2 + 2 * length subs + length rest"
  by (simp add: length_sub_tokens)








subsection \<open>The refresh tick\<close>

text \<open>
  C1. A tick of the refresh loop leaves the module as it was when the IPv4 fetch fails,
  and when the IPv4 fetch succeeds and the IPv6 fetch fails (the IPv4 result is dropped);
  when both succeed the ranges become the IPv4 list followed by the IPv6 list, which is
  what \<open>GetIPRanges\<close> returns from then on. The three cases are all there are.
\<close>

theorem refresh_tick_all_or_nothing:
  "(\<forall>e net1. fetch s net ipv4 = (Inl e, net1) \<longrightarrow>
       select_loop (TickerC # evs) s net t = select_loop evs s net1 t)
   \<and> (\<forall>p4 net1 e net2.
         fetch s net ipv4 = (Inr p4, net1) \<and> fetch s net1 ipv6 = (Inl e, net2) \<longrightarrow>
         select_loop (TickerC # evs) s net t = select_loop evs s net2 t)
   \<and> (\<forall>p4 net1 p6 net2.
         fetch s net ipv4 = (Inr p4, net1) \<and> fetch s net1 ipv6 = (Inr p6, net2) \<longrightarrow>
         select_loop (TickerC # evs) s net t = select_loop evs (s\<lparr>ranges := p4 @ p6\<rparr>) net2 t
         \<and> GetIPRanges (s\<lparr>ranges := p4 @ p6\<rparr>) = p4 @ p6)"
  by (simp add: tick_def GetIPRanges_def)

theorem refresh_tick_all_or_nothing_witness:
  "select_loop [TickerC] stale net_v4_down ticker0
     = Blocked stale (net_v4_down\<lparr>sent := [(ipv4, WithCancel 1)]\<rparr>) ticker0
   \<and> select_loop [TickerC] stale net_v6_down ticker0
     = Blocked stale (net_v6_down\<lparr>sent := [(ipv4, WithCancel 1), (ipv6, WithCancel 1)]\<rparr>) ticker0
   \<and> select_loop [TickerC] stale net_up ticker0
     = Blocked (stale\<lparr>ranges := prefixes_v4 @ prefixes_v6\<rparr>)
         (net_up\<lparr>sent := [(ipv4, WithCancel 1), (ipv6, WithCancel 1)]\<rparr>) ticker0
   \<and> GetIPRanges (stale\<lparr>ranges := prefixes_v4 @ prefixes_v6\<rparr>) = prefixes_v4 @ prefixes_v6"
proof -
  have c: "getContext stale = WithCancel 1"
    by (simp add: getContext_def stale_def)
  have a: "fetch stale net_v4_down ipv4
             = (Inl (TransportError 1), net_v4_down\<lparr>sent := [(ipv4, WithCancel 1)]\<rparr>)"
    by (simp add: fetch_eq c net_v4_down_def)
  have b1: "fetch stale net_v6_down ipv4
             = (Inr prefixes_v4, net_v6_down\<lparr>sent := [(ipv4, WithCancel 1)]\<rparr>)"
    by (simp add: fetch_eq c net_v6_down_def fetch_loop_body_v4)
  have b2: "fetch stale (net_v6_down\<lparr>sent := [(ipv4, WithCancel 1)]\<rparr>) ipv6
             = (Inl (TransportError 2),
                net_v6_down\<lparr>sent := [(ipv4, WithCancel 1), (ipv6, WithCancel 1)]\<rparr>)"
    by (simp add: fetch_eq c net_v6_down_def ipv4_neq_ipv6)
  have c1: "fetch stale net_up ipv4 = (Inr prefixes_v4, net_up\<lparr>sent := [(ipv4, WithCancel 1)]\<rparr>)"
    by (simp add: fetch_eq c net_up_def fetch_loop_body_v4)
  have c2: "fetch stale (net_up\<lparr>sent := [(ipv4, WithCancel 1)]\<rparr>) ipv6
             = (Inr prefixes_v6, net_up\<lparr>sent := [(ipv4, WithCancel 1), (ipv6, WithCancel 1)]\<rparr>)"
    by (simp add: fetch_eq c net_up_def fetch_loop_body_v6 ipv4_neq_ipv6)
  show ?thesis
    using refresh_tick_all_or_nothing [of stale net_v4_down "[]" ticker0]
      refresh_tick_all_or_nothing [of stale net_v6_down "[]" ticker0]
      refresh_tick_all_or_nothing [of stale net_up "[]" ticker0]
      a b1 b2 c1 c2
    by simp
qed

subsection \<open>The loop and its end\<close>

text \<open>
  C7. The loop of \<open>refreshLoop\<close> ends only on the event that the context is done, and
  then the ticker is stopped: on events that are all ticks it is still running, blocked
  in the \<open>select\<close>, whatever the fetches gave; once the done event is among them it has
  returned with the ticker stopped.
\<close>

theorem select_loop_ends_only_on_done:
  "(CtxDone \<notin> set evs \<longrightarrow> (\<exists>s' net'. select_loop evs s net t = Blocked s' net' t))
   \<and> (CtxDone \<in> set evs \<longrightarrow>
        (\<exists>s' net'. select_loop evs s net t = Returned s' net' (t\<lparr>stopped := True\<rparr>)))"
proof (induction evs arbitrary: s net)
  case Nil
  show ?case by simp
next
  case (Cons ev evs)
  show ?case
  proof (cases ev)
    case TickerC
    obtain s1 net1 where tk: "tick s net = (s1, net1)"
      by (cases "tick s net")
    from Cons.IH [of s1 net1] TickerC tk show ?thesis
      by simp
  next
    case CtxDone
    then show ?thesis by simp
  qed
qed

theorem select_loop_ends_only_on_done_witness:
  "CtxDone \<notin> set [TickerC, TickerC]
   \<and> (\<exists>s' net'. select_loop [TickerC, TickerC] stale net_v4_down ticker0 = Blocked s' net' ticker0)
   \<and> CtxDone \<in> set [TickerC, CtxDone, TickerC]
   \<and> (\<exists>s' net'. select_loop [TickerC, CtxDone, TickerC] stale net_up ticker0
                   = Returned s' net' (ticker0\<lparr>stopped := True\<rparr>))"
  using select_loop_ends_only_on_done [of "[TickerC, TickerC]" stale net_v4_down ticker0]
    select_loop_ends_only_on_done [of "[TickerC, CtxDone, TickerC]" stale net_up ticker0]
  by simp

subsection \<open>The interval\<close>

text \<open>
  C10. The default of one hour replaces the interval only when it is exactly zero; any
  other interval goes to \<open>NewTicker\<close> as it is, so a negative one makes \<open>NewTicker\<close>
  panic, and \<open>refreshLoop\<close> panics exactly when the interval is negative.
\<close>

theorem refreshLoop_panics_iff_negative:
  "(Interval s = 0 \<longrightarrow>
      refreshLoop evs s net
        = select_loop evs (s\<lparr>Interval := Hour\<rparr>) net \<lparr>period = Hour, stopped = False\<rparr>)
   \<and> (Interval s \<noteq> 0 \<longrightarrow>
        refreshLoop evs s net
          = (case NewTicker (Interval s) of
               None \<Rightarrow> Panicked
             | Some t \<Rightarrow> select_loop evs s net t))
   \<and> (Interval s < 0 \<longrightarrow> NewTicker (Interval s) = None \<and> refreshLoop evs s net = Panicked)
   \<and> (refreshLoop evs s net = Panicked \<longleftrightarrow> Interval s < 0)"
  by (auto simp: refreshLoop_def NewTicker_def Hour_def select_loop_not_Panicked)

theorem refreshLoop_panics_iff_negative_witness:
  "refreshLoop [] stale net_up = Blocked (stale\<lparr>Interval := Hour\<rparr>) net_up ticker0
   \<and> refreshLoop [] (stale\<lparr>Interval := 5\<rparr>) net_up
       = Blocked (stale\<lparr>Interval := 5\<rparr>) net_up \<lparr>period = 5, stopped = False\<rparr>
   \<and> refreshLoop [TickerC] (stale\<lparr>Interval := - 1\<rparr>) net_up = Panicked"
  using refreshLoop_panics_iff_negative [of stale "[]" net_up]
    refreshLoop_panics_iff_negative [of "stale\<lparr>Interval := 5\<rparr>" "[]" net_up]
    refreshLoop_panics_iff_negative [of "stale\<lparr>Interval := - 1\<rparr>" "[TickerC]" net_up]
  by (simp add: stale_def ticker0_def NewTicker_def)

subsection \<open>Fetching\<close>

text \<open>
  C3. A body in which a line does not parse makes \<open>fetch\<close> return the error of the first
  such line and no prefixes, as long as \<open>Scan\<close> delivers the lines up to that one
  (\<open>fetch_loop_first_error\<close> above; \<open>fetch_loop_body_bad\<close> is an instance). It does not
  hold for every body: a line of \<open>MaxScanTokenSize\<close> bytes or more makes \<open>Scan\<close> return
  false, the loop ends as at the end of the input, and \<open>fetch\<close> returns the prefixes
  read so far with no error. Here the second line is 65536 bytes long and is not an
  address, the third line is not an address either, and \<open>fetch\<close> returns the prefix of
  the first line.
\<close>

theorem fetch_long_line_no_error:
  "text_lines body_long = [''173.245.48.0/20'', long_line, ''not-a-cidr'']
   \<and> length long_line = MaxScanTokenSize
   \<and> CIDRExpressionToPrefix long_line = Inl (IPError long_line)
   \<and> CIDRExpressionToPrefix ''not-a-cidr'' = Inl (IPError ''not-a-cidr'')
   \<and> fst (fetch stale net_long ipv4) = Inr [prefixes_v4 ! 0]"
  by (simp add: text_lines_body_long length_long_line MaxScanTokenSize_def parse_long_line
      parse_sample_lines(2) fetch_eq net_long_def fetch_loop_body_long)




subsection \<open>Provisioning\<close>

text \<open>
  C2. \<open>Provision\<close> fetches the IPv4 list and then the IPv6 list. When the IPv4 fetch
  fails it returns that error; when the IPv6 fetch fails it returns that error; when
  both succeed on a module that holds no ranges yet (as every new module does), it
  returns no error, the ranges are the IPv4 list followed by the IPv6 list, their
  number is the sum of the two, and the two requests went out in that order.
\<close>

theorem Provision_fetches_both:
  "(\<forall>e net1. fetch (s0\<lparr>ctx := c, lock := True\<rparr>) net ipv4 = (Inl e, net1) \<longrightarrow>
       fst (Provision c s0 net) = Some e)
   \<and> (\<forall>p4 net1 e net2.
         fetch (s0\<lparr>ctx := c, lock := True\<rparr>) net ipv4 = (Inr p4, net1)
         \<and> fetch (s0\<lparr>ctx := c, lock := True\<rparr>) net1 ipv6 = (Inl e, net2) \<longrightarrow>
         fst (Provision c s0 net) = Some e)
   \<and> (\<forall>p4 net1 p6 net2.
         ranges s0 = []
         \<and> fetch (s0\<lparr>ctx := c, lock := True\<rparr>) net ipv4 = (Inr p4, net1)
         \<and> fetch (s0\<lparr>ctx := c, lock := True\<rparr>) net1 ipv6 = (Inr p6, net2) \<longrightarrow>
         Provision c s0 net = (None, s0\<lparr>ctx := c, lock := True, ranges := p4 @ p6\<rparr>, net2)
         \<and> length (GetIPRanges (fst (snd (Provision c s0 net)))) = length p4 + length p6
         \<and> map fst (sent net2) = map fst (sent net) @ [ipv4, ipv6])"
proof (intro conjI allI impI)
  fix e net1
  assume "fetch (s0\<lparr>ctx := c, lock := True\<rparr>) net ipv4 = (Inl e, net1)"
  then show "fst (Provision c s0 net) = Some e"
    by (simp add: Provision_eq)
next
  fix p4 net1 e net2
  assume "fetch (s0\<lparr>ctx := c, lock := True\<rparr>) net ipv4 = (Inr p4, net1)
          \<and> fetch (s0\<lparr>ctx := c, lock := True\<rparr>) net1 ipv6 = (Inl e, net2)"
  then show "fst (Provision c s0 net) = Some e"
    by (simp add: Provision_eq)
next
  fix p4 net1 p6 net2
  assume h: "ranges s0 = []
         \<and> fetch (s0\<lparr>ctx := c, lock := True\<rparr>) net ipv4 = (Inr p4, net1)
         \<and> fetch (s0\<lparr>ctx := c, lock := True\<rparr>) net1 ipv6 = (Inr p6, net2)"
  then show "Provision c s0 net = (None, s0\<lparr>ctx := c, lock := True, ranges := p4 @ p6\<rparr>, net2)"
    by (simp add: Provision_eq)
  from h show "length (GetIPRanges (fst (snd (Provision c s0 net)))) = length p4 + length p6"
    by (simp add: Provision_eq GetIPRanges_def)
  from h have "net1 = net\<lparr>sent := sent net @ [(ipv4, getContext (s0\<lparr>ctx := c, lock := True\<rparr>))]\<rparr>"
    and "net2 = net1\<lparr>sent := sent net1 @ [(ipv6, getContext (s0\<lparr>ctx := c, lock := True\<rparr>))]\<rparr>"
    by (simp_all add: fetch_eq)
  then show "map fst (sent net2) = map fst (sent net) @ [ipv4, ipv6]"
    by simp
qed

theorem Provision_fetches_both_witness:
  "fst (Provision 1 New net_v4_down) = Some (TransportError 1)
   \<and> fst (Provision 1 New net_v6_down) = Some (TransportError 2)
   \<and> Provision 1 New net_up
       = (None, New\<lparr>ctx := 1, lock := True, ranges := prefixes_v4 @ prefixes_v6\<rparr>,
          net_up\<lparr>sent := [(ipv4, WithCancel 1), (ipv6, WithCancel 1)]\<rparr>)
   \<and> length (GetIPRanges (fst (snd (Provision 1 New net_up)))) = 2 + 2"
proof -
  have a: "fetch (New\<lparr>ctx := 1, lock := True\<rparr>) net_v4_down ipv4
             = (Inl (TransportError 1), net_v4_down\<lparr>sent := [(ipv4, WithCancel 1)]\<rparr>)"
    by (simp add: fetch_eq getContext_def New_def net_v4_down_def)
  have b1: "fetch (New\<lparr>ctx := 1, lock := True\<rparr>) net_v6_down ipv4
             = (Inr prefixes_v4, net_v6_down\<lparr>sent := [(ipv4, WithCancel 1)]\<rparr>)"
    by (simp add: fetch_eq getContext_def New_def net_v6_down_def fetch_loop_body_v4)
  have b2: "fetch (New\<lparr>ctx := 1, lock := True\<rparr>) (net_v6_down\<lparr>sent := [(ipv4, WithCancel 1)]\<rparr>) ipv6
             = (Inl (TransportError 2),
                net_v6_down\<lparr>sent := [(ipv4, WithCancel 1), (ipv6, WithCancel 1)]\<rparr>)"
    by (simp add: fetch_eq getContext_def New_def net_v6_down_def ipv4_neq_ipv6)
  have c1: "fetch (New\<lparr>ctx := 1, lock := True\<rparr>) net_up ipv4
             = (Inr prefixes_v4, net_up\<lparr>sent := [(ipv4, WithCancel 1)]\<rparr>)"
    by (simp add: fetch_eq getContext_def New_def net_up_def fetch_loop_body_v4)
  have c2: "fetch (New\<lparr>ctx := 1, lock := True\<rparr>) (net_up\<lparr>sent := [(ipv4, WithCancel 1)]\<rparr>) ipv6
             = (Inr prefixes_v6, net_up\<lparr>sent := [(ipv4, WithCancel 1), (ipv6, WithCancel 1)]\<rparr>)"
    by (simp add: fetch_eq getContext_def New_def net_up_def fetch_loop_body_v6 ipv4_neq_ipv6)
  have r: "ranges New = []"
    by (simp add: New_def)
  have l: "length prefixes_v4 = 2" "length prefixes_v6 = 2"
    by (simp_all add: prefixes_v4_def prefixes_v6_def)
  show ?thesis
    using Provision_fetches_both [where ?s0.0 = New and c = 1 and net = net_v4_down]
      Provision_fetches_both [where ?s0.0 = New and c = 1 and net = net_v6_down]
      Provision_fetches_both [where ?s0.0 = New and c = 1 and net = net_up]
      a b1 b2 c1 c2 r l
    by (simp add: GetIPRanges_def)
qed

text \<open>
  C9. When the IPv4 fetch of \<open>Provision\<close> succeeds and the IPv6 fetch fails, \<open>Provision\<close>
  returns the error and the module keeps the IPv4 prefixes that were appended to its
  ranges; a tick of the refresh loop on the same answers leaves the module as it was.
\<close>

theorem Provision_failure_keeps_ipv4:
  assumes "fetch (s0\<lparr>ctx := c, lock := True\<rparr>) net ipv4 = (Inr p4, net1)"
    and "fetch (s0\<lparr>ctx := c, lock := True\<rparr>) net1 ipv6 = (Inl e, net2)"
  shows "Provision c s0 net = (Some e, s0\<lparr>ctx := c, lock := True, ranges := ranges s0 @ p4\<rparr>, net2)
         \<and> ranges (fst (snd (Provision c s0 net))) = ranges s0 @ p4
         \<and> fst (tick (s0\<lparr>ctx := c, lock := True\<rparr>) net) = s0\<lparr>ctx := c, lock := True\<rparr>"
  using assms by (simp add: Provision_eq tick_def)

theorem Provision_failure_keeps_ipv4_witness:
  "Provision 1 New net_v6_down
     = (Some (TransportError 2), New\<lparr>ctx := 1, lock := True, ranges := ranges New @ prefixes_v4\<rparr>,
        net_v6_down\<lparr>sent := [(ipv4, WithCancel 1), (ipv6, WithCancel 1)]\<rparr>)
   \<and> ranges (fst (snd (Provision 1 New net_v6_down))) = ranges New @ prefixes_v4
   \<and> fst (tick (New\<lparr>ctx := 1, lock := True\<rparr>) net_v6_down) = New\<lparr>ctx := 1, lock := True\<rparr>"
proof -
  have b1: "fetch (New\<lparr>ctx := 1, lock := True\<rparr>) net_v6_down ipv4
             = (Inr prefixes_v4, net_v6_down\<lparr>sent := [(ipv4, WithCancel 1)]\<rparr>)"
    by (simp add: fetch_eq getContext_def New_def net_v6_down_def fetch_loop_body_v4)
  have b2: "fetch (New\<lparr>ctx := 1, lock := True\<rparr>) (net_v6_down\<lparr>sent := [(ipv4, WithCancel 1)]\<rparr>) ipv6
             = (Inl (TransportError 2),
                net_v6_down\<lparr>sent := [(ipv4, WithCancel 1), (ipv6, WithCancel 1)]\<rparr>)"
    by (simp add: fetch_eq getContext_def New_def net_v6_down_def ipv4_neq_ipv6)
  show ?thesis
    using Provision_failure_keeps_ipv4 [OF b1 b2] by simp
qed

text \<open>
  C5, as the claim states it, fails: with two empty bodies both fetches succeed, and
  \<open>Provision\<close> returns no error with no ranges at all.
\<close>

theorem Provision_empty_counterexample:
  "fst (Provision 1 New net_empty) = None
   \<and> GetIPRanges (fst (snd (Provision 1 New net_empty))) = []"
  using Provision_net_empty by (simp add: GetIPRanges_def New_def)

text \<open>
  C5, amended. \<open>Provision\<close> has no check for an empty list: it fails exactly when one of
  its two fetches fails. When both succeed on a module that holds no ranges yet, it
  returns no error and the ranges are the two lists one after the other, which is
  empty exactly when both lists are empty.
\<close>

theorem Provision_fails_only_on_fetch_error:
  "(fst (Provision c s0 net) \<noteq> None \<longleftrightarrow>
      (\<exists>e. fst (fetch (s0\<lparr>ctx := c, lock := True\<rparr>) net ipv4) = Inl e)
      \<or> (\<exists>e. fst (fetch (s0\<lparr>ctx := c, lock := True\<rparr>)
                    (snd (fetch (s0\<lparr>ctx := c, lock := True\<rparr>) net ipv4)) ipv6) = Inl e))
   \<and> (\<forall>p4 net1 p6 net2.
         ranges s0 = []
         \<and> fetch (s0\<lparr>ctx := c, lock := True\<rparr>) net ipv4 = (Inr p4, net1)
         \<and> fetch (s0\<lparr>ctx := c, lock := True\<rparr>) net1 ipv6 = (Inr p6, net2) \<longrightarrow>
         fst (Provision c s0 net) = None
         \<and> GetIPRanges (fst (snd (Provision c s0 net))) = p4 @ p6
         \<and> (GetIPRanges (fst (snd (Provision c s0 net))) = [] \<longleftrightarrow> p4 = [] \<and> p6 = []))"
  by (auto simp: Provision_eq GetIPRanges_def split: prod.splits sum.splits)

theorem Provision_fails_only_on_fetch_error_witness:
  "fst (Provision 1 New net_v4_down) \<noteq> None
   \<and> fst (Provision 1 New net_empty) = None
   \<and> GetIPRanges (fst (snd (Provision 1 New net_empty))) = [] @ []
   \<and> fst (Provision 1 New net_up) = None
   \<and> GetIPRanges (fst (snd (Provision 1 New net_up))) = prefixes_v4 @ prefixes_v6"
proof -
  have a: "fst (fetch (New\<lparr>ctx := 1, lock := True\<rparr>) net_v4_down ipv4) = Inl (TransportError 1)"
    by (simp add: fetch_eq getContext_def New_def net_v4_down_def)
  have e1: "fetch (New\<lparr>ctx := 1, lock := True\<rparr>) net_empty ipv4
             = (Inr [], net_empty\<lparr>sent := [(ipv4, WithCancel 1)]\<rparr>)"
    by (simp add: fetch_eq getContext_def New_def net_empty_def fetch_loop_Nil)
  have e2: "fetch (New\<lparr>ctx := 1, lock := True\<rparr>) (net_empty\<lparr>sent := [(ipv4, WithCancel 1)]\<rparr>) ipv6
             = (Inr [], net_empty\<lparr>sent := [(ipv4, WithCancel 1), (ipv6, WithCancel 1)]\<rparr>)"
    by (simp add: fetch_eq getContext_def New_def net_empty_def fetch_loop_Nil)
  have c1: "fetch (New\<lparr>ctx := 1, lock := True\<rparr>) net_up ipv4
             = (Inr prefixes_v4, net_up\<lparr>sent := [(ipv4, WithCancel 1)]\<rparr>)"
    by (simp add: fetch_eq getContext_def New_def net_up_def fetch_loop_body_v4)
  have c2: "fetch (New\<lparr>ctx := 1, lock := True\<rparr>) (net_up\<lparr>sent := [(ipv4, WithCancel 1)]\<rparr>) ipv6
             = (Inr prefixes_v6, net_up\<lparr>sent := [(ipv4, WithCancel 1), (ipv6, WithCancel 1)]\<rparr>)"
    by (simp add: fetch_eq getContext_def New_def net_up_def fetch_loop_body_v6 ipv4_neq_ipv6)
  have r: "ranges New = []"
    by (simp add: New_def)
  have w1: "fst (Provision 1 New net_v4_down) \<noteq> None"
    using Provision_fails_only_on_fetch_error [where ?s0.0 = New and c = 1 and net = net_v4_down] a by blast
  have w2: "fst (Provision 1 New net_empty) = None
            \<and> GetIPRanges (fst (snd (Provision 1 New net_empty))) = [] @ []"
    using Provision_fails_only_on_fetch_error [where ?s0.0 = New and c = 1 and net = net_empty] e1 e2 r by blast
  have w3: "fst (Provision 1 New net_up) = None
            \<and> GetIPRanges (fst (snd (Provision 1 New net_up))) = prefixes_v4 @ prefixes_v6"
    using Provision_fails_only_on_fetch_error [where ?s0.0 = New and c = 1 and net = net_up] c1 c2 r by blast
  from w1 w2 w3 show ?thesis by blast
qed

subsection \<open>Defaults\<close>

text \<open>
  C6. With the interval zero the refresh loop runs on a ticker of one hour. With the
  timeout zero every fetch is made under a context that can only be cancelled; with a
  timeout above zero every fetch is made under a context with that deadline. Neither
  the default interval nor a tick changes the context the fetches use.
\<close>

theorem defaults_interval_and_timeout:
  "(Interval s = 0 \<longrightarrow>
      refreshLoop evs s net
        = select_loop evs (s\<lparr>Interval := Hour\<rparr>) net \<lparr>period = Hour, stopped = False\<rparr>
      \<and> Hour = 60 * 60 * 1000 * 1000 * 1000)
   \<and> (Timeout s = 0 \<longrightarrow>
        getContext s = WithCancel (ctx s)
        \<and> sent (snd (fetch s net api)) = sent net @ [(api, WithCancel (ctx s))])
   \<and> (Timeout s > 0 \<longrightarrow>
        getContext s = WithTimeout (ctx s) (Timeout s)
        \<and> sent (snd (fetch s net api)) = sent net @ [(api, WithTimeout (ctx s) (Timeout s))])
   \<and> getContext (s\<lparr>Interval := Hour\<rparr>) = getContext s
   \<and> getContext (fst (tick s net)) = getContext s"
  by (auto simp: refreshLoop_def NewTicker_def Hour_def getContext_def fetch_eq tick_def
      split: prod.splits sum.splits)

theorem defaults_interval_and_timeout_witness:
  "refreshLoop [] stale net_up = Blocked (stale\<lparr>Interval := Hour\<rparr>) net_up ticker0
   \<and> Hour = 3600000000000
   \<and> sent (snd (fetch stale net_up ipv4)) = [(ipv4, WithCancel 1)]
   \<and> sent (snd (fetch (stale\<lparr>Timeout := 30000000000\<rparr>) net_up ipv4))
       = [(ipv4, WithTimeout 1 30000000000)]"
  using defaults_interval_and_timeout [where s = stale and evs = "[]" and net = net_up and api = ipv4]
    defaults_interval_and_timeout [where s = "stale\<lparr>Timeout := 30000000000\<rparr>" and evs = "[]" and net = net_up and api = ipv4]
  by (simp add: stale_def ticker0_def net_up_def)

text \<open>
  The outer loop \<open>for d.Next()\<close> reads on after the block: tokens that follow the closing
  brace are taken as another name with its arguments. Here a directive \<open>other_module 10h\<close>
  follows the block, and its argument is refused.
\<close>

lemma Unmarshal_tokens_after_block:
  "fst (UnmarshalCaddyfile sample_ParseDuration New
         (NewDispenser [tok ''cloudflare'' 1, tok ''{'' 1, tok ''interval'' 2, tok ''1.5h'' 2,
                        tok ''}'' 3, tok ''other_module'' 4, tok ''10h'' 4]))
     = Some (ArgErr ''10h'')"
  by code_simp

subsection \<open>The Caddyfile block\<close>



end
